theory Spec2Isabelle
  imports Main
begin

section \<open>Values, rows and responses\<close>

text \<open>
  The routes of \<^verbatim>\<open>paralympics/routes.py\<close> move JSON objects between the HTTP
  request, the Marshmallow schemas and the SQLAlchemy session. A JSON scalar and a column
  value are the same thing here: Python's \<^verbatim>\<open>None\<close>, a string or an integer.
\<close>

datatype val = VNull | VStr string | VInt int

text \<open>
  A model instance (and a table row) is the dictionary of its attributes, and a request
  body is the dictionary \<^verbatim>\<open>request.get_json()\<close> returns. Both are association
  lists; an attribute that was never set reads as \<^verbatim>\<open>None\<close>.
\<close>

type_synonym row = "(string \<times> val) list"

type_synonym payload = "(string \<times> val) list"

definition attr :: "row \<Rightarrow> string \<Rightarrow> val" where
  "attr r k = (case map_of r k of None \<Rightarrow> VNull | Some v \<Rightarrow> v)"

primrec setattr :: "string \<Rightarrow> val \<Rightarrow> row \<Rightarrow> row" where
  "setattr k v [] = [(k, v)]"
| "setattr k v (p # ps) = (if fst p = k then (k, v) # ps else p # setattr k v ps)"

text \<open>Python's \<^verbatim>\<open>str\<close> of a non-negative integer, for the f-strings of the handlers.\<close>

fun str_nat :: "nat \<Rightarrow> string" where
  "str_nat n =
     (if n < 10 then [char_of (48 + n)]
      else str_nat (n div 10) @ [char_of (48 + n mod 10)])"

declare str_nat.simps [simp del]

definition str_int :: "int \<Rightarrow> string" where
  "str_int i = (if i < 0 then CHR ''-'' # str_nat (nat (- i)) else str_nat (nat i))"

fun str_val :: "val \<Rightarrow> string" where
  "str_val VNull = ''None''"
| "str_val (VStr s) = s"
| "str_val (VInt i) = str_int i"

text \<open>
  What a handler hands back to Flask: a status code and a body. A body is a JSON object,
  a JSON array of objects, the message dictionary of a validation error (field name to
  list of messages), or the HTML page Flask itself renders for an aborted or crashed
  request.
\<close>

datatype body =
    Object "(string \<times> val) list"
  | Array "(string \<times> val) list list"
  | Messages "(string \<times> string list) list"
  | Page string

datatype response = Response (status: nat) (content: body)

text \<open>
  The exceptions that can travel through a handler. All but \<open>ValidationError\<close>
  (Marshmallow) and \<open>NotFound\<close> (Werkzeug's \<^verbatim>\<open>abort(404)\<close>) are subclasses of
  \<^verbatim>\<open>SQLAlchemyError\<close>.
\<close>

datatype exn =
    ValidationError "(string \<times> string list) list"
  | NoResultFound
  | MultipleResultsFound
  | InvalidRequestError
  | IntegrityError
  | OperationalError
  | NotFound string

fun is_SQLAlchemyError :: "exn \<Rightarrow> bool" where
  "is_SQLAlchemyError (ValidationError m) = False"
| "is_SQLAlchemyError (NotFound d) = False"
| "is_SQLAlchemyError e = True"

section \<open>The schema layer\<close>

text \<open>
  \<^verbatim>\<open>paralympics/schemas.py\<close> and \<^verbatim>\<open>paralympics/models.py\<close> are not part of the
  sources, so the declaration of a schema is a parameter of every handler: the list of its
  fields, and whether the schema is declared \<^verbatim>\<open>transient\<close>. A field has a name,
  Marshmallow's \<^verbatim>\<open>required\<close>, \<^verbatim>\<open>allow_none\<close> and \<^verbatim>\<open>load_default\<close> options,
  the conversion of its type (\<open>None\<close> when the value is not of the type) and the message of
  a failed conversion. The handlers pass what \<^verbatim>\<open>load\<close> returns to
  \<^verbatim>\<open>db.session.add\<close>, so the schemas are marshmallow-sqlalchemy schemas that load model
  instances, and the mapped attributes of a model are the fields of its schema.
\<close>

record field =
  fname :: string
  required :: bool
  allow_none :: bool
  load_default :: "val option"
  deserialize :: "val \<Rightarrow> val option"
  invalid :: string

record schema =
  load_fields :: "field list"
  transient :: bool

definition field_names :: "schema \<Rightarrow> string list" where
  "field_names sch = map fname (load_fields sch)"

text \<open>
  One field of Marshmallow's \<^verbatim>\<open>Schema._deserialize\<close>: a key missing from the body is
  skipped under \<^verbatim>\<open>partial=True\<close>, is an error when the field is required and
  otherwise yields the load default (if any); \<^verbatim>\<open>None\<close> needs \<^verbatim>\<open>allow_none\<close>;
  anything else goes through the conversion of the field's type.
\<close>

fun field_result :: "bool \<Rightarrow> field \<Rightarrow> val option \<Rightarrow> string + val option" where
  "field_result partial f None =
     (if partial then Inr None
      else if required f then Inl ''Missing data for required field.''
      else Inr (load_default f))"
| "field_result partial f (Some VNull) =
     (if allow_none f then Inr (Some VNull) else Inl ''Field may not be null.'')"
| "field_result partial f (Some v) =
     (case deserialize f v of None \<Rightarrow> Inl (invalid f) | Some v' \<Rightarrow> Inr (Some v'))"

definition field_errors :: "bool \<Rightarrow> field list \<Rightarrow> payload \<Rightarrow> (string \<times> string list) list" where
  "field_errors partial fs data =
     concat (map (\<lambda>f. case field_result partial f (map_of data (fname f)) of
                         Inl m \<Rightarrow> [(fname f, [m])] | Inr v \<Rightarrow> []) fs)"

definition field_values :: "bool \<Rightarrow> field list \<Rightarrow> payload \<Rightarrow> row" where
  "field_values partial fs data =
     concat (map (\<lambda>f. case field_result partial f (map_of data (fname f)) of
                         Inr (Some v) \<Rightarrow> [(fname f, v)] | _ \<Rightarrow> []) fs)"

text \<open>Keys of the body that no field declares are errors (Marshmallow's default, \<^verbatim>\<open>RAISE\<close>).\<close>

definition unknown_errors :: "field list \<Rightarrow> payload \<Rightarrow> (string \<times> string list) list" where
  "unknown_errors fs data =
     map (\<lambda>k. (k, [''Unknown field.''])) (filter (\<lambda>k. k \<notin> set (map fname fs)) (remdups (map fst data)))"

definition validate :: "schema \<Rightarrow> bool \<Rightarrow> payload \<Rightarrow> exn + row" where
  "validate sch partial data =
     (let errors = field_errors partial (load_fields sch) data @ unknown_errors (load_fields sch) data
      in if errors = [] then Inr (field_values partial (load_fields sch) data)
         else Inl (ValidationError errors))"

text \<open>\<^verbatim>\<open>schema.dump(obj)\<close>: the declared fields of the entity, in the order of the schema.\<close>

definition dump :: "schema \<Rightarrow> row \<Rightarrow> (string \<times> val) list" where
  "dump sch r = map (\<lambda>f. (fname f, attr r (fname f))) (load_fields sch)"

section \<open>The persistence layer\<close>

text \<open>
  The store holds the two tables and whether it can be reached at all. A table is the list
  of its rows; the position of a row is its identity for the session.
\<close>

record database =
  regions :: "row list"
  events :: "row list"
  available :: bool

text \<open>
  An entity is either persistent (loaded from the row at an index, with its current
  attribute values) or transient (built by the schema, not in the table).
\<close>

datatype entity = Persistent nat row | Transient row

fun attrs :: "entity \<Rightarrow> row" where
  "attrs (Persistent i r) = r"
| "attrs (Transient r) = r"

text \<open>
  \<^verbatim>\<open>db.select(M).filter_by(k=v)\<close> resolves the keyword against the attributes of the
  model when the statement is built, and raises \<^verbatim>\<open>InvalidRequestError\<close> for a name
  the model does not have. Executing a statement needs the store.
\<close>

definition filter_by :: "schema \<Rightarrow> string \<Rightarrow> val \<Rightarrow> exn + (row \<Rightarrow> bool)" where
  "filter_by sch k v =
     (if k \<in> set (field_names sch) then Inr (\<lambda>r. attr r k = v) else Inl InvalidRequestError)"

definition execute :: "bool \<Rightarrow> row list \<Rightarrow> (row \<Rightarrow> bool) \<Rightarrow> exn + entity list" where
  "execute up rows p =
     (if up then Inr (map (\<lambda>(i, r). Persistent i r) (filter (\<lambda>(i, r). p r) (enumerate 0 rows)))
      else Inl OperationalError)"

definition select_by :: "schema \<Rightarrow> bool \<Rightarrow> row list \<Rightarrow> string \<Rightarrow> val \<Rightarrow> exn + entity list" where
  "select_by sch up rows k v =
     (case filter_by sch k v of Inl e \<Rightarrow> Inl e | Inr p \<Rightarrow> execute up rows p)"

fun scalar_one :: "entity list \<Rightarrow> exn + entity" where
  "scalar_one [] = Inl NoResultFound"
| "scalar_one [x] = Inr x"
| "scalar_one (x # y # zs) = Inl MultipleResultsFound"

fun scalar_one_or_none :: "entity list \<Rightarrow> exn + entity option" where
  "scalar_one_or_none [] = Inr None"
| "scalar_one_or_none [x] = Inr (Some x)"
| "scalar_one_or_none (x # y # zs) = Inl MultipleResultsFound"

text \<open>
  The unit of work of one request: instances added, persistent instances whose attributes
  were set, and instances marked for deletion. It is discarded when the request ends, so
  only what \<open>commit\<close> writes reaches the store.
\<close>

record session =
  new :: "row list"
  dirty :: "(nat \<times> row) list"
  deleted :: "nat list"

definition empty_session :: session where
  "empty_session = \<lparr>new = [], dirty = [], deleted = []\<rparr>"

fun session_add :: "entity \<Rightarrow> session \<Rightarrow> session" where
  "session_add (Persistent i r) s = s\<lparr>dirty := dirty s @ [(i, r)]\<rparr>"
| "session_add (Transient r) s = s\<lparr>new := new s @ [r]\<rparr>"

fun session_delete :: "entity \<Rightarrow> session \<Rightarrow> exn + session" where
  "session_delete (Persistent i r) s = Inr (s\<lparr>deleted := i # deleted s\<rparr>)"
| "session_delete (Transient r) s = Inl InvalidRequestError"

text \<open>
  The store enforces the primary key of a table: no row without a key, no two rows with
  the same key. An integer key that is left empty is generated on insert (one more than
  the largest key in the table); a string key is not. The reference from an event to its
  region is not enforced (SQLite does not check foreign keys unless it is asked to).
\<close>

definition keys :: "string \<Rightarrow> row list \<Rightarrow> val list" where
  "keys pk rows = map (\<lambda>r. attr r pk) rows"

definition primary_key_ok :: "string \<Rightarrow> row list \<Rightarrow> bool" where
  "primary_key_ok pk rows = (VNull \<notin> set (keys pk rows) \<and> distinct (keys pk rows))"

definition next_id :: "string \<Rightarrow> row list \<Rightarrow> int" where
  "next_id pk rows = 1 + fold max (map (\<lambda>r. case attr r pk of VInt i \<Rightarrow> i | _ \<Rightarrow> 0) rows) 0"

definition insert_row :: "string \<Rightarrow> bool \<Rightarrow> row \<Rightarrow> row list \<Rightarrow> row list" where
  "insert_row pk auto r rows =
     rows @ [if auto \<and> attr r pk = VNull then setattr pk (VInt (next_id pk rows)) r else r]"

definition flush :: "string \<Rightarrow> bool \<Rightarrow> session \<Rightarrow> row list \<Rightarrow> row list" where
  "flush pk auto s rows =
     (let updated = fold (\<lambda>(i, r) rs. rs[i := r]) (dirty s) rows;
          kept = map snd (filter (\<lambda>(i, r). i \<notin> set (deleted s)) (enumerate 0 updated))
      in fold (insert_row pk auto) (new s) kept)"

definition commit :: "string \<Rightarrow> bool \<Rightarrow> bool \<Rightarrow> session \<Rightarrow> row list \<Rightarrow> exn + row list" where
  "commit pk auto up s rows =
     (if \<not> up then Inl OperationalError
      else let rows' = flush pk auto s rows
           in if primary_key_ok pk rows' then Inr rows' else Inl IntegrityError)"

text \<open>
  Reading an attribute of an entity after the commit: a persistent entity has the
  values that were written, an inserted one is the last row of the table, with its
  generated key.
\<close>

fun refreshed :: "entity \<Rightarrow> row list \<Rightarrow> row" where
  "refreshed (Persistent i r) rows = r"
| "refreshed (Transient r) rows = (case rev rows of [] \<Rightarrow> r | x # xs \<Rightarrow> x)"

subsection \<open>Loading an entity through a schema\<close>

text \<open>
  marshmallow-sqlalchemy's \<^verbatim>\<open>load(data, instance=..., partial=...)\<close> validates the
  body and then runs \<^verbatim>\<open>make_instance\<close>: the target is the entity passed in or,
  failing that, the row whose primary key is the one in the data (\<^verbatim>\<open>get_instance\<close>,
  which a transient schema skips). A target has every loaded key set on it with
  \<^verbatim>\<open>setattr\<close>; without a target a new model object is built from the loaded data.
\<close>

definition get_instance :: "schema \<Rightarrow> string \<Rightarrow> bool \<Rightarrow> row list \<Rightarrow> row \<Rightarrow> exn + entity option" where
  "get_instance sch pk up rows data =
     (if transient sch then Inr None
      else if attr data pk = VNull then Inr None
      else case execute up rows (\<lambda>r. attr r pk = attr data pk) of
             Inl e \<Rightarrow> Inl e
           | Inr [] \<Rightarrow> Inr None
           | Inr (x # xs) \<Rightarrow> Inr (Some x))"

fun set_all :: "row \<Rightarrow> entity \<Rightarrow> entity" where
  "set_all data (Persistent i r) = Persistent i (fold (\<lambda>(k, v). setattr k v) data r)"
| "set_all data (Transient r) = Transient (fold (\<lambda>(k, v). setattr k v) data r)"

definition make_instance ::
  "schema \<Rightarrow> string \<Rightarrow> bool \<Rightarrow> row list \<Rightarrow> entity option \<Rightarrow> row \<Rightarrow> exn + entity" where
  "make_instance sch pk up rows inst data =
     (case (case inst of Some x \<Rightarrow> Inr (Some x) | None \<Rightarrow> get_instance sch pk up rows data) of
        Inl e \<Rightarrow> Inl e
      | Inr (Some x) \<Rightarrow> Inr (set_all data x)
      | Inr None \<Rightarrow> Inr (Transient data))"

definition load ::
  "schema \<Rightarrow> string \<Rightarrow> bool \<Rightarrow> row list \<Rightarrow> payload \<Rightarrow> entity option \<Rightarrow> bool \<Rightarrow> exn + entity" where
  "load sch pk up rows json inst partial =
     (case validate sch partial json of
        Inl e \<Rightarrow> Inl e
      | Inr data \<Rightarrow> make_instance sch pk up rows inst data)"

section \<open>Error handlers and dispatch\<close>

text \<open>The two handlers registered with \<^verbatim>\<open>@app.errorhandler\<close>.\<close>

definition register_validation_error :: "(string \<times> string list) list \<Rightarrow> response" where
  "register_validation_error messages = Response 400 (Messages messages)"

definition resource_not_found :: response where
  "resource_not_found =
     Response 404 (Object [(''error'', VStr ''No row was found when one was required'')])"

text \<open>
  What Flask makes of an exception that leaves a view: the handler registered for its
  class if there is one, the page of the HTTP error for \<^verbatim>\<open>abort\<close>, and the 500 page
  for everything else. The session is rolled back with the request, so the store is as it
  was.
\<close>

fun handle_exception :: "exn \<Rightarrow> response" where
  "handle_exception (ValidationError messages) = register_validation_error messages"
| "handle_exception NoResultFound = resource_not_found"
| "handle_exception (NotFound description) = Response 404 (Page description)"
| "handle_exception e = Response 500 (Page ''Internal Server Error'')"

definition dispatch :: "database \<Rightarrow> exn + response \<times> database \<Rightarrow> response \<times> database" where
  "dispatch db res = (case res of Inl e \<Rightarrow> (handle_exception e, db) | Inr x \<Rightarrow> x)"

section \<open>Route handlers\<close>

text \<open>
  Every handler takes the schema of its entity, what Flask extracts from the request (the
  path parameter and the JSON body) and the store, and returns the response together with
  the store the request leaves behind. Regions are keyed by \<open>NOC\<close>, events by the
  integer \<open>id\<close> that the store generates. \<^verbatim>\<open>regions_schema\<close> and
  \<^verbatim>\<open>region_schema\<close> are two instances of one schema class, so they share the
  parameter \<open>rs\<close>; likewise \<open>es\<close> for events. An event id in a path is taken as the
  number it denotes.
\<close>

definition message :: "string \<Rightarrow> body" where
  "message s = Object [(''message'', VStr s)]"

definition get_regions :: "schema \<Rightarrow> database \<Rightarrow> response \<times> database" where
  "get_regions rs db = dispatch db
     (case execute (available db) (regions db) (\<lambda>r. True) of
        Inl e \<Rightarrow> (if is_SQLAlchemyError e then Inl (NotFound ''Region not found.'') else Inl e)
      | Inr all_regions \<Rightarrow>
          Inr (Response 200 (Array (map (\<lambda>x. dump rs (attrs x)) all_regions)), db))"

definition get_region :: "schema \<Rightarrow> string \<Rightarrow> database \<Rightarrow> response \<times> database" where
  "get_region rs code db = dispatch db
     (case select_by rs (available db) (regions db) ''NOC'' (VStr code) of
        Inl e \<Rightarrow> Inl e
      | Inr res \<Rightarrow>
          (case scalar_one res of
             Inl e \<Rightarrow> Inl e
           | Inr region \<Rightarrow> Inr (Response 200 (Object (dump rs (attrs region))), db)))"

definition get_events :: "schema \<Rightarrow> database \<Rightarrow> response \<times> database" where
  "get_events es db = dispatch db
     (case execute (available db) (events db) (\<lambda>r. True) of
        Inl e \<Rightarrow> Inl e
      | Inr all_events \<Rightarrow>
          Inr (Response 200 (Array (map (\<lambda>x. dump es (attrs x)) all_events)), db))"

definition get_event :: "schema \<Rightarrow> int \<Rightarrow> database \<Rightarrow> response \<times> database" where
  "get_event es event_id db = dispatch db
     (case select_by es (available db) (events db) ''id'' (VInt event_id) of
        Inl e \<Rightarrow> Inl e
      | Inr res \<Rightarrow>
          (case scalar_one res of
             Inl e \<Rightarrow> Inl e
           | Inr event \<Rightarrow> Inr (Response 200 (Object (dump es (attrs event))), db)))"

definition add_event :: "schema \<Rightarrow> payload \<Rightarrow> database \<Rightarrow> response \<times> database" where
  "add_event es ev_json db = dispatch db
     (case load es ''id'' (available db) (events db) ev_json None False of
        Inl e \<Rightarrow> Inl e
      | Inr event \<Rightarrow>
          (case commit ''id'' True (available db) (session_add event empty_session) (events db) of
             Inl e \<Rightarrow> Inl e
           | Inr rows \<Rightarrow>
               Inr (Response 201
                      (message (''Event added with id= '' @ str_val (attr (refreshed event rows) ''id''))),
                    db\<lparr>events := rows\<rparr>)))"

definition add_region :: "schema \<Rightarrow> payload \<Rightarrow> database \<Rightarrow> response \<times> database" where
  "add_region rs json_data db = dispatch db
     (case load rs ''NOC'' (available db) (regions db) json_data None False of
        Inl e \<Rightarrow> Inl e
      | Inr region \<Rightarrow>
          (case commit ''NOC'' False (available db) (session_add region empty_session) (regions db) of
             Inl e \<Rightarrow> Inl e
           | Inr rows \<Rightarrow>
               Inr (Response 201
                      (message (''Region added with NOC= '' @ str_val (attr (refreshed region rows) ''NOC''))),
                    db\<lparr>regions := rows\<rparr>)))"

definition delete_event :: "schema \<Rightarrow> nat \<Rightarrow> database \<Rightarrow> response \<times> database" where
  "delete_event es event_id db = dispatch db
     (case select_by es (available db) (events db) ''id'' (VInt (int event_id)) of
        Inl e \<Rightarrow> Inl e
      | Inr res \<Rightarrow>
          (case scalar_one res of
             Inl e \<Rightarrow> Inl e
           | Inr event \<Rightarrow>
               (case session_delete event empty_session of
                  Inl e \<Rightarrow> Inl e
                | Inr s \<Rightarrow>
                    (case commit ''id'' True (available db) s (events db) of
                       Inl e \<Rightarrow> Inl e
                     | Inr rows \<Rightarrow>
                         Inr (Response 200 (message (''Event '' @ str_nat event_id @ '' deleted'')),
                              db\<lparr>events := rows\<rparr>)))))"

definition delete_region :: "schema \<Rightarrow> string \<Rightarrow> database \<Rightarrow> response \<times> database" where
  "delete_region rs noc_code db = dispatch db
     (case select_by rs (available db) (regions db) ''NOC'' (VStr noc_code) of
        Inl e \<Rightarrow> Inl e
      | Inr res \<Rightarrow>
          (case scalar_one res of
             Inl e \<Rightarrow> Inl e
           | Inr region \<Rightarrow>
               (case session_delete region empty_session of
                  Inl e \<Rightarrow> Inl e
                | Inr s \<Rightarrow>
                    (case commit ''NOC'' False (available db) s (regions db) of
                       Inl e \<Rightarrow> Inl e
                     | Inr rows \<Rightarrow>
                         Inr (Response 200 (message (''Region '' @ noc_code @ '' deleted'')),
                              db\<lparr>regions := rows\<rparr>)))))"

text \<open>
  \<^verbatim>\<open>event_update\<close> looks the event up with \<^verbatim>\<open>filter_by(event_id=event_id)\<close>,
  before the load and again after the commit. \<^verbatim>\<open>event_schema.jsonify\<close> of
  \<^verbatim>\<open>None\<close> is the empty object. An exception raised by the second lookup comes after
  the commit, so the store it leaves behind is the committed one.
\<close>

definition event_update :: "schema \<Rightarrow> int \<Rightarrow> payload \<Rightarrow> database \<Rightarrow> response \<times> database" where
  "event_update es event_id event_json db = dispatch db
     (case select_by es (available db) (events db) ''event_id'' (VInt event_id) of
        Inl e \<Rightarrow> Inl e
      | Inr res \<Rightarrow>
     (case scalar_one_or_none res of
        Inl e \<Rightarrow> Inl e
      | Inr existing_event \<Rightarrow>
     (case load es ''id'' (available db) (events db) event_json existing_event True of
        Inl e \<Rightarrow> Inl e
      | Inr event_updated \<Rightarrow>
     (case commit ''id'' True (available db) (session_add event_updated empty_session) (events db) of
        Inl e \<Rightarrow> Inl e
      | Inr rows \<Rightarrow>
     (case select_by es (available db) rows ''event_id'' (VInt event_id) of
        Inl e \<Rightarrow> Inr (handle_exception e, db\<lparr>events := rows\<rparr>)
      | Inr res' \<Rightarrow>
     (case scalar_one_or_none res' of
        Inl e \<Rightarrow> Inr (handle_exception e, db\<lparr>events := rows\<rparr>)
      | Inr updated_event \<Rightarrow>
          Inr (Response 200
                 (Object (case updated_event of None \<Rightarrow> [] | Some x \<Rightarrow> dump es (attrs x))),
               db\<lparr>events := rows\<rparr>)))))))"

text \<open>
  \<^verbatim>\<open>region_update\<close> serves both methods of its route. The last three lines of the
  source (add, commit, return the message) are reached by PATCH and by PUT on an existing
  region; PUT on a code that has no region returns from inside its \<^verbatim>\<open>try\<close> block.
\<close>

datatype verb = PUT | PATCH

definition region_update_commit :: "string \<Rightarrow> entity \<Rightarrow> database \<Rightarrow> exn + response \<times> database" where
  "region_update_commit noc_code r db =
     (case commit ''NOC'' False (available db) (session_add r empty_session) (regions db) of
        Inl e \<Rightarrow> Inl e
      | Inr rows \<Rightarrow>
          Inr (Response 200 (message (''Region '' @ noc_code @ '' updated'')), db\<lparr>regions := rows\<rparr>))"

definition region_update ::
  "schema \<Rightarrow> verb \<Rightarrow> string \<Rightarrow> payload \<Rightarrow> database \<Rightarrow> response \<times> database" where
  "region_update rs request_method noc_code region_json db = dispatch db
     (case select_by rs (available db) (regions db) ''NOC'' (VStr noc_code) of
        Inl e \<Rightarrow> Inl e
      | Inr res \<Rightarrow>
     (case scalar_one_or_none res of
        Inl e \<Rightarrow> Inl e
      | Inr existing_region \<Rightarrow>
     (case request_method of
        PATCH \<Rightarrow>
          (case load rs ''NOC'' (available db) (regions db) region_json existing_region True of
             Inl e \<Rightarrow> Inl e
           | Inr r \<Rightarrow> region_update_commit noc_code r db)
      | PUT \<Rightarrow>
          (case existing_region of
             Some existing \<Rightarrow>
               (case load rs ''NOC'' (available db) (regions db) region_json (Some existing) False of
                  Inl (ValidationError messages) \<Rightarrow> Inr (Response 400 (Messages messages), db)
                | Inl e \<Rightarrow> Inl e
                | Inr r \<Rightarrow> region_update_commit noc_code r db)
           | None \<Rightarrow>
               (case load rs ''NOC'' (available db) (regions db) region_json None False of
                  Inl (ValidationError messages) \<Rightarrow> Inr (Response 400 (Messages messages), db)
                | Inl e \<Rightarrow> Inl e
                | Inr r \<Rightarrow>
                    Inr (Response 200 (message (''Region added with NOC= '' @ noc_code)), db))))))"

section \<open>Sample declarations\<close>

text \<open>
  Modelled from the spec: the declarations of \<^verbatim>\<open>paralympics/schemas.py\<close>, which is
  not in the sources. The data model gives a Region its NOC code, a region name and notes,
  and an Event its generated integer id, the NOC of its region and event details. A string
  field accepts strings only, as Marshmallow's \<^verbatim>\<open>String\<close> does; the integer field is
  a strict \<^verbatim>\<open>Integer\<close>. A field that is not required accepts \<^verbatim>\<open>None\<close>, as the
  field generated for a nullable column does. These declarations and the store below are
  the concrete inputs on which the theorems are run. \<open>keyed_event_schema\<close> is an
  Event whose model also maps an attribute \<open>event_id\<close>, the name that
  \<^verbatim>\<open>event_update\<close> filters on.
\<close>

definition string_field :: "string \<Rightarrow> bool \<Rightarrow> field" where
  "string_field n req =
     \<lparr>fname = n, required = req, allow_none = \<not> req, load_default = None,
      deserialize = (\<lambda>v. case v of VStr s \<Rightarrow> Some v | _ \<Rightarrow> None),
      invalid = ''Not a valid string.''\<rparr>"

definition integer_field :: "string \<Rightarrow> bool \<Rightarrow> field" where
  "integer_field n req =
     \<lparr>fname = n, required = req, allow_none = \<not> req, load_default = None,
      deserialize = (\<lambda>v. case v of VInt i \<Rightarrow> Some v | _ \<Rightarrow> None),
      invalid = ''Not a valid integer.''\<rparr>"

definition sample_region_schema :: schema where
  "sample_region_schema =
     \<lparr>load_fields = [string_field ''NOC'' True, string_field ''region'' True,
                     string_field ''notes'' False],
      transient = False\<rparr>"

definition sample_event_schema :: schema where
  "sample_event_schema =
     \<lparr>load_fields = [integer_field ''id'' False, string_field ''NOC'' True,
                     integer_field ''year'' False],
      transient = False\<rparr>"

definition sample_db :: database where
  "sample_db =
     \<lparr>regions =
        [[(''NOC'', VStr ''GBR''), (''region'', VStr ''Great Britain''), (''notes'', VStr ''old'')],
         [(''NOC'', VStr ''FRA''), (''region'', VStr ''France''), (''notes'', VNull)]],
      events = [[(''id'', VInt 1), (''NOC'', VStr ''GBR''), (''year'', VInt 2012)]],
      available = True\<rparr>"

definition keyed_event_schema :: schema where
  "keyed_event_schema =
     \<lparr>load_fields = [integer_field ''id'' False, integer_field ''event_id'' False,
                     string_field ''NOC'' True, integer_field ''year'' False],
      transient = False\<rparr>"

definition keyed_db :: database where
  "keyed_db =
     \<lparr>regions = [[(''NOC'', VStr ''GBR''), (''region'', VStr ''Great Britain''), (''notes'', VNull)]],
      events = [[(''id'', VInt 1), (''event_id'', VInt 1), (''NOC'', VStr ''GBR''),
                 (''year'', VInt 2012)]],
      available = True\<rparr>"

section \<open>Properties of requests and stores\<close>

text \<open>
  Loaded data leaves the key of the region at \<^verbatim>\<open>/regions/{code}\<close> as it is when it
  has no \<open>NOC\<close> or repeats the code of the path.
\<close>

definition key_kept :: "row \<Rightarrow> string \<Rightarrow> bool" where
  "key_kept data code = (map_of data ''NOC'' = None \<or> attr data ''NOC'' = VStr code)"



lemmas sample_defs = sample_region_schema_def sample_event_schema_def sample_db_def
  keyed_event_schema_def keyed_db_def string_field_def integer_field_def

lemmas model_defs = field_names_def attr_def keys_def select_by_def filter_by_def execute_def
  dispatch_def resource_not_found_def register_validation_error_def message_def
  load_def validate_def field_errors_def field_values_def unknown_errors_def
  make_instance_def get_instance_def commit_def flush_def insert_row_def primary_key_ok_def
  empty_session_def dump_def region_update_commit_def next_id_def

lemmas eval_defs = sample_defs model_defs region_update_def add_region_def add_event_def
  get_region_def delete_region_def delete_event_def event_update_def Let_def

section \<open>Lookups\<close>

lemma select_by_absent:
  assumes "k \<in> set (field_names sch)" and "v \<notin> set (keys k rows)"
  shows "select_by sch True rows k v = Inr []"
  using assms
  by (auto simp: select_by_def filter_by_def execute_def keys_def filter_empty_conv
      in_set_enumerate_eq)

lemma load_available:
  assumes "validate sch partial json = Inr data"
  shows "\<exists>r. load sch pk True rows json inst partial = Inr r"
  using assms
  by (auto simp: load_def make_instance_def get_instance_def execute_def
      split: option.splits list.splits)

section \<open>Attributes and loaded data\<close>

lemma map_of_setattr: "map_of (setattr k v r) = (map_of r)(k \<mapsto> v)"
  by (induction r) (auto simp: fun_eq_iff)

lemma attr_setattr: "attr (setattr k v r) k' = (if k' = k then v else attr r k')"
  by (simp add: attr_def map_of_setattr)

lemma attr_set_all:
  assumes "distinct (map fst data)"
  shows "attr (fold (\<lambda>(k, v). setattr k v) data r) k =
           (case map_of data k of Some v \<Rightarrow> v | None \<Rightarrow> attr r k)"
  using assms
proof (induction data arbitrary: r)
  case Nil
  then show ?case by simp
next
  case (Cons p data)
  obtain k0 v0 where p: "p = (k0, v0)" by (cases p)
  from Cons.prems p have fresh: "map_of data k0 = None" and d: "distinct (map fst data)"
    by (auto simp: map_of_eq_None_iff)
  show ?case
    using Cons.IH [OF d, of "setattr k0 v0 r"] fresh
    by (auto simp: p attr_setattr split: option.splits)
qed

lemma attr_present:
  assumes "attr data k \<noteq> VNull"
  shows "\<exists>v. map_of data k = Some v \<and> attr data k = v"
  using assms by (auto simp: attr_def split: option.splits)

lemma fst_field_values:
  "map fst (field_values partial fs json) =
     map fname (filter (\<lambda>f. \<exists>v. field_result partial f (map_of json (fname f)) = Inr (Some v)) fs)"
  by (induction fs) (auto simp: field_values_def split: sum.splits option.splits)

lemma validate_distinct:
  assumes "validate sch partial json = Inr data" and "distinct (field_names sch)"
  shows "distinct (map fst data)"
proof -
  from assms(1) have "data = field_values partial (load_fields sch) json"
    by (auto simp: validate_def Let_def split: if_splits)
  with assms(2) show ?thesis
    by (simp add: fst_field_values field_names_def distinct_map_filter)
qed

lemma field_result_some:
  assumes "field_result partial f (Some u) = Inr w"
  shows "\<exists>v. w = Some v"
  using assms by (cases u; cases "deserialize f u") (auto split: if_splits)

lemma validate_partial_keys:
  assumes "validate sch True json = Inr data"
  shows "fst ` set data = fst ` set json"
proof -
  from assms have data: "data = field_values True (load_fields sch) json"
    and fe: "field_errors True (load_fields sch) json = []"
    and ue: "unknown_errors (load_fields sch) json = []"
    by (auto simp: validate_def Let_def split: if_splits)
  have keys_data: "set (map fst data) =
      fname ` {f \<in> set (load_fields sch). \<exists>v. field_result True f (map_of json (fname f)) = Inr (Some v)}"
    unfolding data fst_field_values by simp
  have ok: "\<exists>v. field_result True f (map_of json (fname f)) = Inr v"
    if "f \<in> set (load_fields sch)" for f
  proof (cases "field_result True f (map_of json (fname f))")
    case (Inl m)
    with that fe show ?thesis
      by (auto simp: field_errors_def split: sum.splits)
  next
    case (Inr v)
    then show ?thesis by simp
  qed
  have "fst ` set data \<subseteq> fst ` set json"
  proof (rule subsetI)
    fix k assume that: "k \<in> fst ` set data"
    from that keys_data obtain f v where f: "fname f = k"
      and v: "field_result True f (map_of json (fname f)) = Inr (Some v)"
      by auto
    have "map_of json k \<noteq> None"
    proof
      assume "map_of json k = None"
      with v f show False by simp
    qed
    then show "k \<in> fst ` set json"
      by (simp add: map_of_eq_None_iff)
  qed
  moreover have "fst ` set json \<subseteq> fst ` set data"
  proof (rule subsetI)
    fix k assume that: "k \<in> fst ` set json"
    from that ue obtain f where f: "f \<in> set (load_fields sch)" "fname f = k"
      by (auto simp: unknown_errors_def filter_empty_conv)
    from that obtain u where u: "map_of json k = Some u"
      by (cases "map_of json k") (auto simp: map_of_eq_None_iff)
    from ok [OF f(1)] obtain w where w: "field_result True f (map_of json (fname f)) = Inr w"
      by blast
    with u f(2) field_result_some [of True f u w] obtain v where "w = Some v"
      by auto
    with w f keys_data show "k \<in> fst ` set data"
      by auto
  qed
  ultimately show ?thesis
    by (rule equalityI)
qed

lemma omitted_not_loaded:
  assumes "validate sch False json = Inr data"
    and "distinct (field_names sch)"
    and "f \<in> set (load_fields sch)"
    and "map_of json (fname f) = None"
    and "load_default f = None"
  shows "map_of data (fname f) = None"
proof (rule ccontr)
  assume "map_of data (fname f) \<noteq> None"
  then have "fname f \<in> set (map fst data)"
    by (simp add: map_of_eq_None_iff)
  moreover from assms(1) have "data = field_values False (load_fields sch) json"
    by (auto simp: validate_def Let_def split: if_splits)
  ultimately obtain g v where g: "g \<in> set (load_fields sch)" "fname g = fname f"
    and v: "field_result False g (map_of json (fname g)) = Inr (Some v)"
    by (auto simp: fst_field_values)
  from assms(2) have "inj_on fname (set (load_fields sch))"
    by (simp add: field_names_def distinct_map)
  with g assms(3) have "g = f"
    by (auto dest: inj_onD)
  with v assms(4,5) show False
    by (simp split: if_splits)
qed




section \<open>Queries\<close>

lemma filter_enumerate_none:
  assumes "v \<notin> set (map f xs)"
  shows "filter (\<lambda>(i, r). f r = v) (enumerate n xs) = []"
  using assms by (auto simp: filter_empty_conv in_set_enumerate_eq)

lemma filter_enumerate_unique:
  assumes "distinct (map f xs)" and "i < length xs" and "f (xs ! i) = v"
  shows "filter (\<lambda>(j, r). f r = v) (enumerate n xs) = [(n + i, xs ! i)]"
  using assms
proof (induction xs arbitrary: n i)
  case Nil
  then show ?case by simp
next
  case (Cons x xs)
  show ?case
  proof (cases i)
    case 0
    with Cons.prems have "v \<notin> set (map f xs)" by auto
    from filter_enumerate_none [OF this] 0 Cons.prems show ?thesis by simp
  next
    case (Suc i')
    with Cons.prems have "f x \<noteq> v" by auto
    with Cons.IH [of i' "Suc n"] Cons.prems Suc show ?thesis by simp
  qed
qed

lemma select_by_unique:
  assumes "k \<in> set (field_names sch)"
    and "primary_key_ok k rows"
    and "i < length rows"
    and "attr (rows ! i) k = v"
  shows "select_by sch True rows k v = Inr [Persistent i (rows ! i)]"
proof -
  have "filter (\<lambda>(j, r). attr r k = v) (enumerate 0 rows) = [(0 + i, rows ! i)]"
    using assms(2-4) by (intro filter_enumerate_unique) (simp_all add: primary_key_ok_def keys_def)
  then show ?thesis
    using assms(1) by (simp add: select_by_def filter_by_def execute_def)
qed







section \<open>Load, flush and commit\<close>

lemma flush_insert:
  "flush pk False (session_add (Transient r) empty_session) rows = rows @ [r]"
  by (simp add: flush_def empty_session_def insert_row_def case_prod_unfold)

lemma flush_update:
  "flush pk auto (session_add (Persistent i r) empty_session) rows = rows[i := r]"
  by (simp add: flush_def empty_session_def case_prod_unfold)


lemma load_transient:
  assumes "validate sch partial json = Inr data" and "transient sch"
  shows "load sch pk up rows json None partial = Inr (Transient data)"
  using assms by (simp add: load_def make_instance_def get_instance_def)

lemma load_stored:
  assumes "validate sch partial json = Inr data"
    and "\<not> transient sch"
    and "primary_key_ok pk rows"
    and "i < length rows"
    and "attr (rows ! i) pk = attr data pk"
  shows "load sch pk True rows json None partial =
           Inr (Persistent i (fold (\<lambda>(k, v). setattr k v) data (rows ! i)))"
proof -
  from assms(3,4,5) have nn: "attr data pk \<noteq> VNull"
    by (auto simp: primary_key_ok_def keys_def in_set_conv_nth) (metis nth_mem image_eqI)
  have "filter (\<lambda>(j, r). attr r pk = attr data pk) (enumerate 0 rows) = [(0 + i, rows ! i)]"
    using assms(3,4,5) by (intro filter_enumerate_unique) (simp_all add: primary_key_ok_def keys_def)
  then show ?thesis
    using assms(1,2) nn
    by (simp add: load_def make_instance_def get_instance_def execute_def)
qed

lemma load_onto:
  assumes "validate sch partial json = Inr data"
  shows "load sch pk up rows json (Some (Persistent i r)) partial =
           Inr (Persistent i (fold (\<lambda>(k, v). setattr k v) data r))"
  using assms by (simp add: load_def make_instance_def)


lemma keys_update: "keys pk (rows[i := r]) = (keys pk rows)[i := attr r pk]"
  by (simp add: keys_def map_update)

lemma primary_key_ok_update:
  assumes "primary_key_ok pk rows"
    and "i < length rows"
    and "attr r pk = attr (rows ! i) pk \<or> (attr r pk \<noteq> VNull \<and> attr r pk \<notin> set (keys pk rows))"
  shows "primary_key_ok pk (rows[i := r])"
proof -
  have old: "attr (rows ! i) pk \<in> set (keys pk rows)"
    using assms(2) by (simp add: keys_def)
  have nn: "attr r pk \<noteq> VNull"
    using assms(1,3) old by (auto simp: primary_key_ok_def)
  have "distinct ((keys pk rows)[i := attr r pk])"
  proof (rule distinct_list_update)
    show "distinct (keys pk rows)"
      using assms(1) by (simp add: primary_key_ok_def)
    show "attr r pk \<notin> set (keys pk rows) - {keys pk rows ! i}"
      using assms(2,3) by (auto simp: keys_def)
  qed
  moreover have "VNull \<notin> set ((keys pk rows)[i := attr r pk])"
    using nn assms(1) set_update_subset_insert [of "keys pk rows" i "attr r pk"]
    by (auto simp: primary_key_ok_def)
  ultimately show ?thesis
    by (simp add: primary_key_ok_def keys_update)
qed

lemma commit_update:
  assumes "primary_key_ok pk (rows[i := r])"
  shows "commit pk auto True (session_add (Persistent i r) empty_session) rows = Inr (rows[i := r])"
  using assms by (simp add: commit_def flush_update del: session_add.simps)




lemma new_key:
  assumes "distinct (map fst data)"
    and "attr r ''NOC'' = VStr code"
    and "key_kept data code"
  shows "attr (fold (\<lambda>(k, v). setattr k v) data r) ''NOC'' = attr r ''NOC''"
proof -
  let ?r = "fold (\<lambda>(k, v). setattr k v) data r"
  have eq: "attr ?r ''NOC'' = (case map_of data ''NOC'' of Some v \<Rightarrow> v | None \<Rightarrow> attr r ''NOC'')"
    using assms(1) by (rule attr_set_all)
  from assms(3) consider
      (kept) "map_of data ''NOC'' = None"
    | (same) "attr data ''NOC'' = VStr code"
    unfolding key_kept_def by auto
  then show ?thesis
  proof cases
    case kept
    with eq show ?thesis by simp
  next
    case same
    then have "attr data ''NOC'' \<noteq> VNull" by simp
    from attr_present [OF this] same eq assms(2) show ?thesis by auto
  qed
qed

lemma region_update_existing:
  assumes "available db"
    and "''NOC'' \<in> set (field_names rs)"
    and "distinct (field_names rs)"
    and "primary_key_ok ''NOC'' (regions db)"
    and "i < length (regions db)"
    and "attr (regions db ! i) ''NOC'' = VStr code"
    and "validate rs (m = PATCH) body = Inr data"
    and "key_kept data code"
  shows "region_update rs m code body db =
           (Response 200 (Object [(''message'', VStr (''Region '' @ code @ '' updated''))]),
            db\<lparr>regions := (regions db)[i := fold (\<lambda>(k, v). setattr k v) data (regions db ! i)]\<rparr>)"
    and "primary_key_ok ''NOC'' ((regions db)[i := fold (\<lambda>(k, v). setattr k v) data (regions db ! i)])"
proof -
  let ?r = "fold (\<lambda>(k, v). setattr k v) data (regions db ! i)"
  have d: "distinct (map fst data)"
    using assms(7,3) by (rule validate_distinct)
  show ok: "primary_key_ok ''NOC'' ((regions db)[i := ?r])"
    using assms(4,5) disjI1 [OF new_key [OF d assms(6,8)]] by (rule primary_key_ok_update)
  have s: "select_by rs True (regions db) ''NOC'' (VStr code) = Inr [Persistent i (regions db ! i)]"
    using assms(2,4,5,6) by (rule select_by_unique)
  have l: "load rs ''NOC'' True (regions db) body (Some (Persistent i (regions db ! i))) (m = PATCH) =
      Inr (Persistent i ?r)"
    using assms(7) by (rule load_onto)
  have c: "region_update_commit code (Persistent i ?r) db =
      Inr (Response 200 (Object [(''message'', VStr (''Region '' @ code @ '' updated''))]),
           db\<lparr>regions := (regions db)[i := ?r]\<rparr>)"
    using assms(1) commit_update [OF ok]
    by (simp add: region_update_commit_def message_def del: session_add.simps)
  show "region_update rs m code body db =
           (Response 200 (Object [(''message'', VStr (''Region '' @ code @ '' updated''))]),
            db\<lparr>regions := (regions db)[i := ?r]\<rparr>)"
    using assms(1) s l c
    by (cases m) (simp_all add: region_update_def dispatch_def)
qed

lemma handle_exception_status:
  "status (handle_exception e) = 400 \<or> status (handle_exception e) = 404
   \<or> status (handle_exception e) = 500"
  by (cases e) (simp_all add: register_validation_error_def resource_not_found_def)

lemma handle_exception_not_success [simp]:
  "status (handle_exception e) \<noteq> 200" "status (handle_exception e) \<noteq> 201"
  using handle_exception_status [of e] by auto




section \<open>Unknown codes\<close>

text \<open>
  C8. For every code that is not in the store, \<^verbatim>\<open>GET /regions/{code}\<close> and
  \<^verbatim>\<open>DELETE /regions/{code}\<close> both answer 404 with a JSON body of the form
  \<^verbatim>\<open>{"error": "<description>"}\<close>: \<^verbatim>\<open>scalar_one\<close> raises
  \<^verbatim>\<open>NoResultFound\<close> and the registered handler turns it into that response. The store
  is reachable and \<open>NOC\<close> is an attribute of Region.
\<close>

theorem unknown_region_not_found:
  assumes "available db"
    and "''NOC'' \<in> set (field_names rs)"
    and "VStr code \<notin> set (keys ''NOC'' (regions db))"
  shows "get_region rs code db =
           (Response 404 (Object [(''error'', VStr ''No row was found when one was required'')]), db)
       \<and> delete_region rs code db =
           (Response 404 (Object [(''error'', VStr ''No row was found when one was required'')]), db)"
  using assms
  by (simp add: get_region_def delete_region_def select_by_absent dispatch_def
      resource_not_found_def)

theorem unknown_region_not_found_witness:
  "available sample_db
   \<and> ''NOC'' \<in> set (field_names sample_region_schema)
   \<and> VStr ''ZZZ'' \<notin> set (keys ''NOC'' (regions sample_db))
   \<and> get_region sample_region_schema ''ZZZ'' sample_db =
        (Response 404 (Object [(''error'', VStr ''No row was found when one was required'')]),
         sample_db)
   \<and> delete_region sample_region_schema ''ZZZ'' sample_db =
        (Response 404 (Object [(''error'', VStr ''No row was found when one was required'')]),
         sample_db)"
proof -
  have a: "available sample_db"
    by (simp add: sample_defs)
  have b: "''NOC'' \<in> set (field_names sample_region_schema)"
    by (simp add: sample_defs field_names_def)
  have c: "VStr ''ZZZ'' \<notin> set (keys ''NOC'' (regions sample_db))"
    by (simp add: sample_defs keys_def attr_def)
  show ?thesis
    using a b c unknown_region_not_found [OF a b c] by blast
qed

section \<open>PUT on a code that has no region\<close>

text \<open>
  C1. For a code that has no region and a body that passes validation, PUT is documented
  to create the region. The handler answers 200 with the message
  \<^verbatim>\<open>Region added with NOC= {code}\<close>, but it returns from inside the
  \<^verbatim>\<open>try\<close> block, before \<^verbatim>\<open>db.session.add\<close> and
  \<^verbatim>\<open>db.session.commit\<close>: the store it leaves behind is the store it found, and a
  following \<^verbatim>\<open>GET /regions/{code}\<close> answers 404.
\<close>

theorem put_absent_region_not_persisted:
  assumes "available db"
    and "''NOC'' \<in> set (field_names rs)"
    and "VStr code \<notin> set (keys ''NOC'' (regions db))"
    and "validate rs False body = Inr data"
  shows "region_update rs PUT code body db =
           (Response 200 (Object [(''message'', VStr (''Region added with NOC= '' @ code))]), db)
       \<and> fst (get_region rs code (snd (region_update rs PUT code body db))) =
           Response 404 (Object [(''error'', VStr ''No row was found when one was required'')])"
proof -
  obtain r where r: "load rs ''NOC'' True (regions db) body None False = Inr r"
    using load_available [OF assms(4)] by blast
  have put: "region_update rs PUT code body db =
      (Response 200 (Object [(''message'', VStr (''Region added with NOC= '' @ code))]), db)"
    using assms(1-3) r
    by (simp add: region_update_def select_by_absent dispatch_def message_def)
  have "get_region rs code db =
      (Response 404 (Object [(''error'', VStr ''No row was found when one was required'')]), db)"
    using assms(1-3)
    by (simp add: get_region_def select_by_absent dispatch_def resource_not_found_def)
  with put show ?thesis by simp
qed

theorem put_absent_region_not_persisted_witness:
  "available sample_db
   \<and> ''NOC'' \<in> set (field_names sample_region_schema)
   \<and> VStr ''ZZZ'' \<notin> set (keys ''NOC'' (regions sample_db))
   \<and> validate sample_region_schema False [(''NOC'', VStr ''ZZZ''), (''region'', VStr ''Zedland'')] =
        Inr [(''NOC'', VStr ''ZZZ''), (''region'', VStr ''Zedland'')]
   \<and> region_update sample_region_schema PUT ''ZZZ''
        [(''NOC'', VStr ''ZZZ''), (''region'', VStr ''Zedland'')] sample_db =
        (Response 200 (Object [(''message'', VStr ''Region added with NOC= ZZZ'')]), sample_db)
   \<and> fst (get_region sample_region_schema ''ZZZ''
        (snd (region_update sample_region_schema PUT ''ZZZ''
           [(''NOC'', VStr ''ZZZ''), (''region'', VStr ''Zedland'')] sample_db))) =
        Response 404 (Object [(''error'', VStr ''No row was found when one was required'')])"
proof -
  have a: "available sample_db"
    by (simp add: sample_defs)
  have b: "''NOC'' \<in> set (field_names sample_region_schema)"
    by (simp add: sample_defs field_names_def)
  have c: "VStr ''ZZZ'' \<notin> set (keys ''NOC'' (regions sample_db))"
    by (simp add: sample_defs keys_def attr_def)
  have d: "validate sample_region_schema False [(''NOC'', VStr ''ZZZ''), (''region'', VStr ''Zedland'')] =
      Inr [(''NOC'', VStr ''ZZZ''), (''region'', VStr ''Zedland'')]"
    by (simp add: sample_defs validate_def field_errors_def field_values_def unknown_errors_def)
  have e: "''Region added with NOC= '' @ ''ZZZ'' = ''Region added with NOC= ZZZ''"
    by simp
  show ?thesis
    using a b c d put_absent_region_not_persisted [OF a b c d] unfolding e by blast
qed

section \<open>PATCH on an event\<close>

text \<open>
  C2. PATCH on an existing event is meant to apply the supplied fields, commit, fetch the
  event again and answer 200 with it. \<^verbatim>\<open>event_update\<close> builds its lookup with
  \<^verbatim>\<open>filter_by(event_id=event_id)\<close>, where every other event handler filters on
  \<open>id\<close>. For an Event that has no attribute \<open>event_id\<close> the statement cannot be built:
  the request ends in an unhandled \<^verbatim>\<open>InvalidRequestError\<close>, whatever the id and
  the body, and the store is not touched.
\<close>

theorem event_update_unknown_attribute:
  assumes "''event_id'' \<notin> set (field_names es)"
  shows "event_update es event_id event_json db =
           (Response 500 (Page ''Internal Server Error''), db)"
  using assms
  by (simp add: event_update_def select_by_def filter_by_def dispatch_def)

theorem event_update_unknown_attribute_witness:
  "''event_id'' \<notin> set (field_names sample_event_schema)
   \<and> VInt 1 \<in> set (keys ''id'' (events sample_db))
   \<and> event_update sample_event_schema 1 [(''year'', VInt 1992)] sample_db =
        (Response 500 (Page ''Internal Server Error''), sample_db)"
proof -
  have a: "''event_id'' \<notin> set (field_names sample_event_schema)"
    by (simp add: sample_defs field_names_def)
  have b: "VInt 1 \<in> set (keys ''id'' (events sample_db))"
    by (simp add: sample_defs keys_def attr_def)
  show ?thesis
    using a b event_update_unknown_attribute [OF a] by blast
qed

section \<open>Reads while the store fails\<close>

text \<open>
  C6, as stated: every GET endpoint turns a failure of the store during the read into a
  404. \<^verbatim>\<open>GET /events\<close> on a store that cannot be reached answers 500.
\<close>

theorem get_events_failed_store_counterexample:
  "\<not> available (sample_db\<lparr>available := False\<rparr>)
   \<and> status (fst (get_events sample_event_schema (sample_db\<lparr>available := False\<rparr>))) = 500"
  by (simp add: get_events_def execute_def dispatch_def)

text \<open>
  C6, amended. When the store fails during the read, \<^verbatim>\<open>GET /regions\<close> answers 404:
  it is the one handler that catches \<^verbatim>\<open>SQLAlchemyError\<close> and aborts. The handlers
  of \<^verbatim>\<open>GET /events\<close>, \<^verbatim>\<open>GET /regions/{code}\<close> and
  \<^verbatim>\<open>GET /events/{id}\<close> catch nothing, and the only error with a registered handler is
  \<^verbatim>\<open>NoResultFound\<close>, so the failure leaves them as an unhandled error, a 500.
\<close>

theorem reads_on_failed_store:
  assumes "\<not> available db"
  shows "get_regions rs db = (Response 404 (Page ''Region not found.''), db)
       \<and> get_events es db = (Response 500 (Page ''Internal Server Error''), db)
       \<and> get_region rs code db = (Response 500 (Page ''Internal Server Error''), db)
       \<and> get_event es event_id db = (Response 500 (Page ''Internal Server Error''), db)"
  using assms
  by (simp add: get_regions_def get_events_def get_region_def get_event_def
      select_by_def filter_by_def execute_def dispatch_def)

theorem reads_on_failed_store_witness:
  "\<not> available (sample_db\<lparr>available := False\<rparr>)
   \<and> get_regions sample_region_schema (sample_db\<lparr>available := False\<rparr>) =
        (Response 404 (Page ''Region not found.''), sample_db\<lparr>available := False\<rparr>)
   \<and> get_events sample_event_schema (sample_db\<lparr>available := False\<rparr>) =
        (Response 500 (Page ''Internal Server Error''), sample_db\<lparr>available := False\<rparr>)
   \<and> get_region sample_region_schema ''GBR'' (sample_db\<lparr>available := False\<rparr>) =
        (Response 500 (Page ''Internal Server Error''), sample_db\<lparr>available := False\<rparr>)
   \<and> get_event sample_event_schema 1 (sample_db\<lparr>available := False\<rparr>) =
        (Response 500 (Page ''Internal Server Error''), sample_db\<lparr>available := False\<rparr>)"
proof -
  have a: "\<not> available (sample_db\<lparr>available := False\<rparr>)"
    by simp
  show ?thesis
    using a reads_on_failed_store [OF a, of sample_region_schema sample_event_schema "''GBR''" 1]
    by blast
qed

section \<open>PATCH on a code that has no region\<close>







section \<open>POST of a region whose NOC is already stored\<close>

text \<open>
  C10, as stated: when the body is valid and its \<open>NOC\<close> is that of a stored region, the
  commit raises a storage error that neither handler matches. With a schema that is not
  transient, \<^verbatim>\<open>load\<close> finds the stored region by the key in the body and sets the
  loaded fields on it; the commit is an update and succeeds, and the answer is 201.
\<close>

theorem add_region_duplicate_noc_counterexample:
  "validate sample_region_schema False [(''NOC'', VStr ''FRA''), (''region'', VStr ''Frankreich'')] =
        Inr [(''NOC'', VStr ''FRA''), (''region'', VStr ''Frankreich'')]
   \<and> VStr ''FRA'' \<in> set (keys ''NOC'' (regions sample_db))
   \<and> add_region sample_region_schema [(''NOC'', VStr ''FRA''), (''region'', VStr ''Frankreich'')]
        sample_db =
        (Response 201 (Object [(''message'', VStr ''Region added with NOC= FRA'')]),
         sample_db\<lparr>regions :=
           [[(''NOC'', VStr ''GBR''), (''region'', VStr ''Great Britain''), (''notes'', VStr ''old'')],
            [(''NOC'', VStr ''FRA''), (''region'', VStr ''Frankreich''), (''notes'', VNull)]]\<rparr>)"
  by (simp add: eval_defs)

text \<open>
  C10, amended. For a POST whose body passes validation and whose \<open>NOC\<close> is that of
  a stored region: when the schema is declared transient, \<^verbatim>\<open>load\<close> builds a new
  Region, the commit raises \<^verbatim>\<open>IntegrityError\<close>, which is neither a
  \<^verbatim>\<open>ValidationError\<close> nor \<^verbatim>\<open>NoResultFound\<close>, and the request ends as an
  unhandled error with the store unchanged; otherwise \<^verbatim>\<open>load\<close> resolves the key to
  the stored region and sets the loaded fields on it, the commit succeeds and the answer is
  201.
\<close>

theorem add_region_duplicate_noc:
  assumes "available db"
    and "distinct (field_names rs)"
    and "primary_key_ok ''NOC'' (regions db)"
    and "validate rs False body = Inr data"
    and "i < length (regions db)"
    and "attr (regions db ! i) ''NOC'' = attr data ''NOC''"
  shows "add_region rs body db =
           (if transient rs then (Response 500 (Page ''Internal Server Error''), db)
            else (Response 201
                    (Object [(''message'', VStr (''Region added with NOC= '' @ str_val (attr data ''NOC'')))]),
                  db\<lparr>regions := (regions db)[i := fold (\<lambda>(k, v). setattr k v) data (regions db ! i)]\<rparr>))"
proof (cases "transient rs")
  case True
  have l: "load rs ''NOC'' True (regions db) body None False = Inr (Transient data)"
    using assms(4) True by (rule load_transient)
  have "attr data ''NOC'' \<in> set (keys ''NOC'' (regions db))"
    using assms(5,6) by (auto simp: keys_def) (metis nth_mem image_eqI)
  then have bad: "\<not> primary_key_ok ''NOC'' (regions db @ [data])"
    by (simp add: primary_key_ok_def keys_def)
  have c: "commit ''NOC'' False True (session_add (Transient data) empty_session) (regions db) =
      Inl IntegrityError"
    using bad by (simp add: commit_def flush_insert del: session_add.simps)
  show ?thesis
    using assms(1) True l c
    by (simp add: add_region_def dispatch_def del: session_add.simps)
next
  case False
  let ?r = "fold (\<lambda>(k, v). setattr k v) data (regions db ! i)"
  have l: "load rs ''NOC'' True (regions db) body None False = Inr (Persistent i ?r)"
    using assms(4) False assms(3,5,6) by (rule load_stored)
  have d: "distinct (map fst data)"
    using assms(4,2) by (rule validate_distinct)
  have nn: "attr data ''NOC'' \<noteq> VNull"
    using assms(3,5,6) by (auto simp: primary_key_ok_def keys_def) (metis nth_mem image_eqI)
  have key: "attr ?r ''NOC'' = attr data ''NOC''"
    using attr_present [OF nn] by (auto simp: attr_set_all [OF d])
  have "keys ''NOC'' ((regions db)[i := ?r]) = keys ''NOC'' (regions db)"
    using assms(5,6) key by (simp add: keys_def map_update list_update_same_conv)
  then have ok: "primary_key_ok ''NOC'' ((regions db)[i := ?r])"
    using assms(3) by (simp add: primary_key_ok_def)
  have c: "commit ''NOC'' False True (session_add (Persistent i ?r) empty_session) (regions db) =
      Inr ((regions db)[i := ?r])"
    using ok by (simp add: commit_def flush_update del: session_add.simps)
  show ?thesis
    using assms(1) False l c key
    by (simp add: add_region_def dispatch_def message_def del: session_add.simps)
qed

theorem add_region_duplicate_noc_witness:
  "available sample_db
   \<and> distinct (field_names sample_region_schema)
   \<and> primary_key_ok ''NOC'' (regions sample_db)
   \<and> validate sample_region_schema False
        [(''NOC'', VStr ''FRA''), (''region'', VStr ''Frankreich'')] =
        Inr [(''NOC'', VStr ''FRA''), (''region'', VStr ''Frankreich'')]
   \<and> 1 < length (regions sample_db)
   \<and> attr (regions sample_db ! 1) ''NOC'' =
        attr [(''NOC'', VStr ''FRA''), (''region'', VStr ''Frankreich'')] ''NOC''
   \<and> add_region sample_region_schema
        [(''NOC'', VStr ''FRA''), (''region'', VStr ''Frankreich'')] sample_db =
        (Response 201 (Object [(''message'', VStr ''Region added with NOC= FRA'')]),
         sample_db\<lparr>regions :=
           [[(''NOC'', VStr ''GBR''), (''region'', VStr ''Great Britain''), (''notes'', VStr ''old'')],
            [(''NOC'', VStr ''FRA''), (''region'', VStr ''Frankreich''), (''notes'', VNull)]]\<rparr>)
   \<and> add_region (sample_region_schema\<lparr>transient := True\<rparr>)
        [(''NOC'', VStr ''FRA''), (''region'', VStr ''Frankreich'')] sample_db =
        (Response 500 (Page ''Internal Server Error''), sample_db)"
proof -
  let ?body = "[(''NOC'', VStr ''FRA''), (''region'', VStr ''Frankreich'')]"
  have a: "available sample_db"
    by (simp add: sample_defs)
  have b: "distinct (field_names sample_region_schema)"
    by (simp add: sample_defs field_names_def)
  have b': "distinct (field_names (sample_region_schema\<lparr>transient := True\<rparr>))"
    by (simp add: sample_defs field_names_def)
  have c: "primary_key_ok ''NOC'' (regions sample_db)"
    by (simp add: sample_defs primary_key_ok_def keys_def attr_def)
  have d: "validate sample_region_schema False ?body = Inr ?body"
    by (simp add: sample_defs validate_def field_errors_def field_values_def unknown_errors_def)
  have d': "validate (sample_region_schema\<lparr>transient := True\<rparr>) False ?body = Inr ?body"
    by (simp add: sample_defs validate_def field_errors_def field_values_def unknown_errors_def)
  have e: "1 < length (regions sample_db)"
    by (simp add: sample_defs)
  have f: "attr (regions sample_db ! 1) ''NOC'' = attr ?body ''NOC''"
    by (simp add: sample_defs attr_def)
  have stored: "add_region sample_region_schema ?body sample_db =
      (Response 201 (Object [(''message'', VStr ''Region added with NOC= FRA'')]),
       sample_db\<lparr>regions :=
         [[(''NOC'', VStr ''GBR''), (''region'', VStr ''Great Britain''), (''notes'', VStr ''old'')],
          [(''NOC'', VStr ''FRA''), (''region'', VStr ''Frankreich''), (''notes'', VNull)]]\<rparr>)"
    using add_region_duplicate_noc [OF a b c d e f]
    by (simp add: sample_db_def sample_region_schema_def attr_def)
  have fresh: "add_region (sample_region_schema\<lparr>transient := True\<rparr>) ?body sample_db =
      (Response 500 (Page ''Internal Server Error''), sample_db)"
    using add_region_duplicate_noc [OF a b' c d' e f]
    by simp
  show ?thesis
    using a b c d e f stored fresh by blast
qed

section \<open>PUT on an existing region\<close>

text \<open>
  C5. PUT on an existing region is documented to replace the entire resource, so that a
  field the body leaves out is gone or back at its default afterwards. The handler loads the
  body onto the existing instance, which sets the loaded keys and nothing else: a field that
  the body leaves out and that has no load default keeps the value of the prior version.
  The body leaves the key of the region as it is.
\<close>

theorem put_existing_retains_omitted:
  assumes "available db"
    and "''NOC'' \<in> set (field_names rs)"
    and "distinct (field_names rs)"
    and "primary_key_ok ''NOC'' (regions db)"
    and "i < length (regions db)"
    and "attr (regions db ! i) ''NOC'' = VStr code"
    and "validate rs False body = Inr data"
    and "key_kept data code"
  shows "region_update rs PUT code body db =
           (Response 200 (Object [(''message'', VStr (''Region '' @ code @ '' updated''))]),
            db\<lparr>regions := (regions db)[i := fold (\<lambda>(k, v). setattr k v) data (regions db ! i)]\<rparr>)
       \<and> (\<forall>f \<in> set (load_fields rs).
             map_of body (fname f) = None \<and> load_default f = None \<longrightarrow>
             attr (regions (snd (region_update rs PUT code body db)) ! i) (fname f) =
               attr (regions db ! i) (fname f))"
proof -
  let ?r = "fold (\<lambda>(k, v). setattr k v) data (regions db ! i)"
  have v: "validate rs (PUT = PATCH) body = Inr data"
    using assms(7) by simp
  have put: "region_update rs PUT code body db =
      (Response 200 (Object [(''message'', VStr (''Region '' @ code @ '' updated''))]),
       db\<lparr>regions := (regions db)[i := ?r]\<rparr>)"
    using assms(1-6) v assms(8) by (rule region_update_existing(1))
  have d: "distinct (map fst data)"
    using assms(7,3) by (rule validate_distinct)
  have "attr ?r (fname f) = attr (regions db ! i) (fname f)"
    if "f \<in> set (load_fields rs)" "map_of body (fname f) = None" "load_default f = None" for f
    using omitted_not_loaded [OF assms(7,3) that] by (simp add: attr_set_all [OF d])
  with put assms(5) show ?thesis
    by simp
qed

theorem put_existing_retains_omitted_witness:
  "available sample_db
   \<and> ''NOC'' \<in> set (field_names sample_region_schema)
   \<and> distinct (field_names sample_region_schema)
   \<and> primary_key_ok ''NOC'' (regions sample_db)
   \<and> 0 < length (regions sample_db)
   \<and> attr (regions sample_db ! 0) ''NOC'' = VStr ''GBR''
   \<and> validate sample_region_schema False [(''NOC'', VStr ''GBR''), (''region'', VStr ''GB'')] =
        Inr [(''NOC'', VStr ''GBR''), (''region'', VStr ''GB'')]
   \<and> key_kept [(''NOC'', VStr ''GBR''), (''region'', VStr ''GB'')] ''GBR''
   \<and> region_update sample_region_schema PUT ''GBR''
        [(''NOC'', VStr ''GBR''), (''region'', VStr ''GB'')] sample_db =
        (Response 200 (Object [(''message'', VStr ''Region GBR updated'')]),
         sample_db\<lparr>regions :=
           [[(''NOC'', VStr ''GBR''), (''region'', VStr ''GB''), (''notes'', VStr ''old'')],
            [(''NOC'', VStr ''FRA''), (''region'', VStr ''France''), (''notes'', VNull)]]\<rparr>)
   \<and> attr (regions (snd (region_update sample_region_schema PUT ''GBR''
        [(''NOC'', VStr ''GBR''), (''region'', VStr ''GB'')] sample_db)) ! 0) ''notes'' =
        VStr ''old''"
proof -
  let ?body = "[(''NOC'', VStr ''GBR''), (''region'', VStr ''GB'')]"
  have a: "available sample_db"
    by (simp add: sample_defs)
  have b: "''NOC'' \<in> set (field_names sample_region_schema)"
    by (simp add: sample_defs field_names_def)
  have c: "distinct (field_names sample_region_schema)"
    by (simp add: sample_defs field_names_def)
  have d: "primary_key_ok ''NOC'' (regions sample_db)"
    by (simp add: sample_defs primary_key_ok_def keys_def attr_def)
  have e: "0 < length (regions sample_db)"
    by (simp add: sample_defs)
  have f: "attr (regions sample_db ! 0) ''NOC'' = VStr ''GBR''"
    by (simp add: sample_defs attr_def)
  have g: "validate sample_region_schema False ?body = Inr ?body"
    by (simp add: sample_defs validate_def field_errors_def field_values_def unknown_errors_def)
  have h: "key_kept ?body ''GBR''"
    by (simp add: key_kept_def attr_def)
  note w = put_existing_retains_omitted [OF a b c d e f g h]
  have put: "region_update sample_region_schema PUT ''GBR'' ?body sample_db =
      (Response 200 (Object [(''message'', VStr ''Region GBR updated'')]),
       sample_db\<lparr>regions :=
         [[(''NOC'', VStr ''GBR''), (''region'', VStr ''GB''), (''notes'', VStr ''old'')],
          [(''NOC'', VStr ''FRA''), (''region'', VStr ''France''), (''notes'', VNull)]]\<rparr>)"
    using w by (simp add: sample_db_def)
  have kept: "attr (regions (snd (region_update sample_region_schema PUT ''GBR'' ?body sample_db)) ! 0)
      ''notes'' = attr (regions sample_db ! 0) ''notes''"
  proof -
    have "string_field ''notes'' False \<in> set (load_fields sample_region_schema)"
      by (simp add: sample_region_schema_def)
    moreover have "map_of ?body (fname (string_field ''notes'' False)) = None"
      and "load_default (string_field ''notes'' False) = None"
      and "fname (string_field ''notes'' False) = ''notes''"
      by (simp_all add: string_field_def)
    ultimately show ?thesis
      using w by metis
  qed
  have old: "attr (regions sample_db ! 0) ''notes'' = VStr ''old''"
    by (simp add: sample_defs attr_def)
  show ?thesis
    using a b c d e f g h put kept old by simp
qed

section \<open>PATCH on an existing region\<close>

text \<open>
  C7, as stated: for every existing region and every partial body, PATCH changes exactly
  the supplied fields, and a GET that follows returns the region with those changes. A
  partial body may supply \<open>NOC\<close>. With the \<open>NOC\<close> of another stored region the body
  passes partial validation, the commit violates the primary key, the request ends as an
  unhandled error and no field is changed. With a \<open>NOC\<close> that is free the region is
  renamed, and a GET on the code of the request answers 404.
\<close>

theorem patch_existing_region_key_counterexample:
  "validate sample_region_schema True [(''NOC'', VStr ''FRA'')] = Inr [(''NOC'', VStr ''FRA'')]
   \<and> VStr ''GBR'' \<in> set (keys ''NOC'' (regions sample_db))
   \<and> region_update sample_region_schema PATCH ''GBR'' [(''NOC'', VStr ''FRA'')] sample_db =
        (Response 500 (Page ''Internal Server Error''), sample_db)
   \<and> validate sample_region_schema True [(''NOC'', VStr ''XXX'')] = Inr [(''NOC'', VStr ''XXX'')]
   \<and> VStr ''FRA'' \<in> set (keys ''NOC'' (regions sample_db))
   \<and> status (fst (region_update sample_region_schema PATCH ''FRA''
        [(''NOC'', VStr ''XXX'')] sample_db)) = 200
   \<and> status (fst (get_region sample_region_schema ''FRA''
        (snd (region_update sample_region_schema PATCH ''FRA''
           [(''NOC'', VStr ''XXX'')] sample_db)))) = 404"
  by (simp add: eval_defs)

text \<open>
  C7, amended. For an existing region R and a body that passes partial validation and
  leaves the key as it is (it has no \<open>NOC\<close> or repeats the code of the path), PATCH
  answers 200 and the stored region is R with exactly the supplied fields set to the loaded
  values and every other attribute as before; a following GET on the same code returns that
  region.
\<close>

theorem patch_existing_changes_supplied_fields:
  assumes "available db"
    and "''NOC'' \<in> set (field_names rs)"
    and "distinct (field_names rs)"
    and "primary_key_ok ''NOC'' (regions db)"
    and "i < length (regions db)"
    and "attr (regions db ! i) ''NOC'' = VStr code"
    and "validate rs True body = Inr data"
    and "key_kept data code"
  shows "region_update rs PATCH code body db =
           (Response 200 (Object [(''message'', VStr (''Region '' @ code @ '' updated''))]),
            db\<lparr>regions := (regions db)[i := fold (\<lambda>(k, v). setattr k v) data (regions db ! i)]\<rparr>)
       \<and> (\<forall>k. attr (regions (snd (region_update rs PATCH code body db)) ! i) k =
                 (if k \<in> fst ` set body then attr data k else attr (regions db ! i) k))
       \<and> fst (get_region rs code (snd (region_update rs PATCH code body db))) =
           Response 200
             (Object (dump rs (regions (snd (region_update rs PATCH code body db)) ! i)))"
proof -
  let ?r = "fold (\<lambda>(k, v). setattr k v) data (regions db ! i)"
  let ?db = "db\<lparr>regions := (regions db)[i := ?r]\<rparr>"
  have v: "validate rs (PATCH = PATCH) body = Inr data"
    using assms(7) by simp
  have patch: "region_update rs PATCH code body db =
      (Response 200 (Object [(''message'', VStr (''Region '' @ code @ '' updated''))]), ?db)"
    using assms(1-6) v assms(8) by (rule region_update_existing(1))
  have ok: "primary_key_ok ''NOC'' ((regions db)[i := ?r])"
    using assms(1-6) v assms(8) by (rule region_update_existing(2))
  have d: "distinct (map fst data)"
    using assms(7,3) by (rule validate_distinct)
  have frame: "attr ?r k = (if k \<in> fst ` set body then attr data k else attr (regions db ! i) k)" for k
  proof (cases "map_of data k")
    case None
    then have "k \<notin> fst ` set data"
      by (simp add: map_of_eq_None_iff)
    with None show ?thesis
      by (simp add: attr_set_all [OF d] validate_partial_keys [OF assms(7)])
  next
    case (Some x)
    then have "k \<in> fst ` set data"
      by (metis map_of_eq_None_iff option.distinct(1))
    moreover have "attr ?r k = x"
      using Some by (simp add: attr_set_all [OF d])
    moreover have "attr data k = x"
      using Some by (simp add: attr_def)
    ultimately show ?thesis
      by (simp add: validate_partial_keys [OF assms(7)])
  qed
  have c: "attr ?r ''NOC'' = VStr code"
    using new_key [OF d assms(6,8)] assms(6) by simp
  have get: "fst (get_region rs code ?db) = Response 200 (Object (dump rs ?r))"
  proof -
    have "select_by rs True ((regions db)[i := ?r]) ''NOC'' (VStr code) =
        Inr [Persistent i ((regions db)[i := ?r] ! i)]"
      using assms(2) ok assms(5) c by (intro select_by_unique) simp_all
    with assms(1,5) show ?thesis
      by (simp add: get_region_def dispatch_def)
  qed
  from patch frame get assms(5) show ?thesis
    by simp
qed

theorem patch_existing_changes_supplied_fields_witness:
  "available sample_db
   \<and> ''NOC'' \<in> set (field_names sample_region_schema)
   \<and> distinct (field_names sample_region_schema)
   \<and> primary_key_ok ''NOC'' (regions sample_db)
   \<and> 0 < length (regions sample_db)
   \<and> attr (regions sample_db ! 0) ''NOC'' = VStr ''GBR''
   \<and> validate sample_region_schema True [(''notes'', VStr ''new'')] = Inr [(''notes'', VStr ''new'')]
   \<and> key_kept [(''notes'', VStr ''new'')] ''GBR''
   \<and> region_update sample_region_schema PATCH ''GBR'' [(''notes'', VStr ''new'')] sample_db =
        (Response 200 (Object [(''message'', VStr ''Region GBR updated'')]),
         sample_db\<lparr>regions :=
           [[(''NOC'', VStr ''GBR''), (''region'', VStr ''Great Britain''), (''notes'', VStr ''new'')],
            [(''NOC'', VStr ''FRA''), (''region'', VStr ''France''), (''notes'', VNull)]]\<rparr>)
   \<and> fst (get_region sample_region_schema ''GBR''
        (snd (region_update sample_region_schema PATCH ''GBR'' [(''notes'', VStr ''new'')] sample_db))) =
        Response 200
          (Object [(''NOC'', VStr ''GBR''), (''region'', VStr ''Great Britain''),
                   (''notes'', VStr ''new'')])"
proof -
  let ?body = "[(''notes'', VStr ''new'')]"
  have a: "available sample_db"
    by (simp add: sample_defs)
  have b: "''NOC'' \<in> set (field_names sample_region_schema)"
    by (simp add: sample_defs field_names_def)
  have c: "distinct (field_names sample_region_schema)"
    by (simp add: sample_defs field_names_def)
  have d: "primary_key_ok ''NOC'' (regions sample_db)"
    by (simp add: sample_defs primary_key_ok_def keys_def attr_def)
  have e: "0 < length (regions sample_db)"
    by (simp add: sample_defs)
  have f: "attr (regions sample_db ! 0) ''NOC'' = VStr ''GBR''"
    by (simp add: sample_defs attr_def)
  have g: "validate sample_region_schema True ?body = Inr ?body"
    by (simp add: sample_defs validate_def field_errors_def field_values_def unknown_errors_def)
  have h: "key_kept ?body ''GBR''"
    by (simp add: key_kept_def)
  note w = patch_existing_changes_supplied_fields [OF a b c d e f g h]
  have patch: "region_update sample_region_schema PATCH ''GBR'' ?body sample_db =
      (Response 200 (Object [(''message'', VStr ''Region GBR updated'')]),
       sample_db\<lparr>regions :=
         [[(''NOC'', VStr ''GBR''), (''region'', VStr ''Great Britain''), (''notes'', VStr ''new'')],
          [(''NOC'', VStr ''FRA''), (''region'', VStr ''France''), (''notes'', VNull)]]\<rparr>)"
    using w by (simp add: sample_db_def)
  have row: "regions (snd (region_update sample_region_schema PATCH ''GBR'' ?body sample_db)) ! 0 =
      [(''NOC'', VStr ''GBR''), (''region'', VStr ''Great Britain''), (''notes'', VStr ''new'')]"
    by (simp add: patch)
  have dmp: "dump sample_region_schema
      [(''NOC'', VStr ''GBR''), (''region'', VStr ''Great Britain''), (''notes'', VStr ''new'')] =
      [(''NOC'', VStr ''GBR''), (''region'', VStr ''Great Britain''), (''notes'', VStr ''new'')]"
    by (simp add: dump_def attr_def sample_region_schema_def string_field_def)
  have "fst (get_region sample_region_schema ''GBR''
        (snd (region_update sample_region_schema PATCH ''GBR'' ?body sample_db))) =
      Response 200 (Object (dump sample_region_schema
        (regions (snd (region_update sample_region_schema PATCH ''GBR'' ?body sample_db)) ! 0)))"
    using w by blast
  then have get: "fst (get_region sample_region_schema ''GBR''
        (snd (region_update sample_region_schema PATCH ''GBR'' ?body sample_db))) =
      Response 200
        (Object [(''NOC'', VStr ''GBR''), (''region'', VStr ''Great Britain''),
                 (''notes'', VStr ''new'')])"
    unfolding row dmp .
  show ?thesis
    using a b c d e f g h patch get by simp
qed

section \<open>Success responses and the commit\<close>










end
